theory Spec2Isabelle
  imports Main "HOL-Library.Sublist"
begin

section \<open>Data model of the editing session (libs/web/state/editor.ts)\<close>

text \<open>
  A property of a JavaScript object: the key is missing, or it is there with the value
  \<open>undefined\<close>, or it is there with a value. Reading the property gives \<open>undefined\<close>
  in the first two cases alike (\<open>valueOf\<close>); the spread \<open>{...note, ...data}\<close> tells
  them apart.
\<close>

datatype 'a property = Missing | Undefined | Value 'a

fun valueOf :: "'a property \<Rightarrow> 'a option" where
  "valueOf Missing = None"
| "valueOf Undefined = None"
| "valueOf (Value v) = Some v"

text \<open>
  \<open>NoteModel\<close> and \<open>Partial<NoteModel>\<close>. Only the properties the editor state reads
  or writes are kept: \<open>id\<close> (field \<open>nid\<close>, since \<open>id\<close> is the identity function of
  HOL), \<open>pid\<close>, \<open>title\<close> and \<open>content\<close>.
\<close>

record NoteModel =
  nid :: "string property"
  pid :: "string property"
  title :: "string property"
  content :: "string property"

text \<open>\<open>NoteCacheItem\<close>: a cached snapshot, a note with \<open>rawContent\<close> and the optional
  array \<open>linkIds\<close>.\<close>

record NoteCacheItem = NoteModel +
  rawContent :: "string option"
  linkIds :: "string list option"

text \<open>A thrown JavaScript value; a rejected promise carries one.\<close>

datatype exn = Error string | TypeError

text \<open>
  The texts handed to \<open>toast\<close>, by the line of editor.ts that emits them:
  \<open>NoteSaved\<close> (line 223, "the note is saved"), \<open>SaveFailedRetry\<close> (lines 174 and
  227, "saving failed, please retry") and \<open>ChangeFailed\<close> (line 179, "handling the
  content change failed").
\<close>

datatype toast_text = NoteSaved | SaveFailedRetry | ChangeFailed

datatype severity = success | error

text \<open>
  The router of next/router, as far as the editor reads it: the query object (an
  association list, \<open>has(router.query, k)\<close> is \<open>map_of q k \<noteq> None\<close>), \<open>asPath\<close>, and
  a log of the \<open>router.replace(url, undefined, {shallow})\<close> calls made.
\<close>

record router =
  query :: "(string \<times> string) list"
  asPath :: string
  replaced :: "(string \<times> bool) list"

text \<open>A call of the persistence client, with its argument.\<close>

datatype api_call = CreateNote NoteModel | UpdateNote NoteModel

text \<open>A DOM element under the pointer: its identity, its \<open>href\<close> attribute
  (\<open>getAttribute\<close> gives \<open>null\<close> when there is none) and its class list.\<close>

record element =
  node :: nat
  href :: "string option"
  classList :: "string list"

text \<open>The mounted editor component: \<open>props.readOnly\<close> and its \<open>view\<close>.\<close>

record editor =
  readOnly :: bool
  view :: nat

text \<open>
  Modelled from the spec: the anchored portals of \<open>PortalState\<close> (libs/web/state/portal,
  not among the sources) behind \<open>preview\<close> and \<open>linkToolbar\<close>. Section 3 of the spec
  gives a hover state an anchor element and a target (a note id or an href), and
  section 4.4 the states Idle, PreviewOpen(noteId, anchor) and ToolbarOpen(href, anchor):
  a portal is open at its anchor and idle without one. The source calls \<open>close\<close>,
  \<open>setData\<close> and \<open>setAnchor\<close> on it.
\<close>

record 'd portal =
  anchor :: "element option"
  data :: "'d option"

text \<open>Modelled from the spec: \<open>close\<close> of a portal takes it back to idle.\<close>

definition close :: "'d portal \<Rightarrow> 'd portal" where
  "close p = p\<lparr>anchor := None\<rparr>"

text \<open>Modelled from the spec: \<open>setData\<close> of a portal sets its target.\<close>

definition setData :: "'d \<Rightarrow> 'd portal \<Rightarrow> 'd portal" where
  "setData d p = p\<lparr>data := Some d\<rparr>"

text \<open>Modelled from the spec: \<open>setAnchor\<close> of a portal opens it at an element.\<close>

definition setAnchor :: "element \<Rightarrow> 'd portal \<Rightarrow> 'd portal" where
  "setAnchor a p = p\<lparr>anchor := Some a\<rparr>"

text \<open>
  The collaborators the hook receives. A promise is the value it settles to: \<open>Inl\<close> a
  rejection, \<open>Inr\<close> the result. \<open>createNote\<close> and \<open>createNoteWithTitle\<close> may resolve
  to \<open>undefined\<close> (\<open>None\<close>). \<open>isNoteLink\<close> and \<open>ROOT_ID\<close> come from libs/shared, and
  \<open>parseQuery\<close> is the query object next/router derives from a location.
  \<open>replaceRejects\<close> tells whether the promise of \<open>router.replace\<close> to a location
  rejects, and with what.
\<close>

record env =
  createNote :: "NoteModel \<Rightarrow> exn + NoteModel option"
  updateNote :: "NoteModel \<Rightarrow> exn + unit"
  createNoteWithTitle :: "string \<Rightarrow> exn + NoteModel option"
  isNoteLink :: "string \<Rightarrow> bool"
  ROOT_ID :: string
  parseQuery :: "string \<Rightarrow> (string \<times> string) list"
  replaceRejects :: "string \<Rightarrow> exn option"

text \<open>
  The state of one \<open>useEditor\<close> instance. \<open>isEditing\<close> and \<open>currentContent\<close> are the
  two state variables the hook reads and sets (a boolean and a text, section 3 of the
  spec). \<open>clock\<close>, \<open>timer\<close> and \<open>result\<close> are the state of the debounced callback:
  the time in milliseconds, the armed timer with the arguments of the last call, and
  the value its last invocation returned. \<open>calls\<close> and \<open>toasts\<close> log what was sent to
  the persistence client and to the notification sink.
\<close>

record session =
  isEditing :: bool
  currentContent :: string
  noteOf :: "NoteModel option"
  router :: router
  clock :: nat
  timer :: "(nat \<times> NoteModel) option"
  result :: "(exn + unit) option"
  calls :: "api_call list"
  toasts :: "(toast_text \<times> severity) list"
  isBrowser :: bool
  editorEl :: "editor option"
  preview :: "string option portal"
  linkToolbar :: "(string \<times> nat option) portal"
  backlinks :: "NoteCacheItem list option"

section \<open>The commit and the debounced buffer\<close>

text \<open>\<open>{...note, ...data}\<close>: every key of \<open>data\<close> wins over that of \<open>note\<close>, also
  one whose value is \<open>undefined\<close>; the keys \<open>data\<close> has not are those of \<open>note\<close>;
  spreading \<open>undefined\<close> adds nothing.\<close>

definition spread :: "NoteModel option \<Rightarrow> NoteModel \<Rightarrow> NoteModel" where
  "spread n d = (case n of
      None \<Rightarrow> d
    | Some m \<Rightarrow> \<lparr>nid = (case nid d of Missing \<Rightarrow> nid m | Undefined \<Rightarrow> Undefined | Value v \<Rightarrow> Value v),
                pid = (case pid d of Missing \<Rightarrow> pid m | Undefined \<Rightarrow> Undefined | Value v \<Rightarrow> Value v),
                title = (case title d of Missing \<Rightarrow> title m | Undefined \<Rightarrow> Undefined | Value v \<Rightarrow> Value v),
                content = (case content d of Missing \<Rightarrow> content m | Undefined \<Rightarrow> Undefined
                           | Value v \<Rightarrow> Value v)\<rparr>)"

definition has :: "(string \<times> string) list \<Rightarrow> string \<Rightarrow> bool" where
  "has q k = (map_of q k \<noteq> None)"

text \<open>\<open>(router.query.pid as string) || ROOT_ID\<close>: a missing or empty \<open>pid\<close> is falsy.\<close>

definition pidOrRoot :: "env \<Rightarrow> router \<Rightarrow> string" where
  "pidOrRoot e r = (case map_of (query r) ''pid'' of
      None \<Rightarrow> ROOT_ID e
    | Some p \<Rightarrow> if p = [] then ROOT_ID e else p)"

text \<open>The template \<open>`/${item?.id}`\<close>: a missing item or id prints as "undefined".\<close>

definition noteUrl :: "NoteModel option \<Rightarrow> string" where
  "noteUrl item = CHR ''/'' #
     (case item of None \<Rightarrow> ''undefined''
      | Some n \<Rightarrow> (case valueOf (nid n) of None \<Rightarrow> ''undefined'' | Some i \<Rightarrow> i))"

text \<open>
  \<open>router.replace(url, undefined, {shallow})\<close> of next/router, awaited: the call is
  logged with its \<open>shallow\<close> option. When its promise resolves, the location is
  \<open>url\<close> and the query the one the router derives from \<open>url\<close>; when it rejects, the
  location is the one of before.
\<close>

definition replace :: "env \<Rightarrow> string \<Rightarrow> bool \<Rightarrow> router \<Rightarrow> (exn + unit) \<times> router" where
  "replace e url shallow r =
     (case replaceRejects e url of
        Some x \<Rightarrow> (Inl x, r\<lparr>replaced := replaced r @ [(url, shallow)]\<rparr>)
      | None \<Rightarrow>
          (Inr (), \<lparr>query = parseQuery e url, asPath = url,
                    replaced = replaced r @ [(url, shallow)]\<rparr>))"

text \<open>
  The function given to \<open>useDebouncedCallback\<close> (lines 57 to 71), run to its end with
  nothing else happening at its \<open>await\<close>s. It returns how its promise settles, and the
  session after it.
\<close>

definition commit :: "env \<Rightarrow> NoteModel \<Rightarrow> session \<Rightarrow> (exn + unit) \<times> session" where
  "commit e d s =
     (if has (query (router s)) ''new'' then
        (let d' = d\<lparr>pid := Value (pidOrRoot e (router s))\<rparr>;
             arg = spread (noteOf s) d';
             s1 = s\<lparr>calls := calls s @ [CreateNote arg]\<rparr>
         in case createNote e arg of
              Inl x \<Rightarrow> (Inl x, s1)
            | Inr item \<Rightarrow>
                (if asPath (router s1) \<noteq> noteUrl item
                 then (case replace e (noteUrl item) True (router s1) of
                         (r, rt) \<Rightarrow> (r, s1\<lparr>router := rt\<rparr>))
                 else (Inr (), s1)))
      else
        (let s1 = s\<lparr>calls := calls s @ [UpdateNote d]\<rparr>
         in case updateNote e d of
              Inl x \<Rightarrow> (Inl x, s1)
            | Inr u \<Rightarrow> (Inr (), s1)))"

text \<open>
  Modelled from the spec: the delay of the debounced commit buffer, the second argument
  of \<open>useDebouncedCallback\<close> at line 72, in milliseconds.
\<close>

definition wait :: nat where
  "wait = 500"

text \<open>
  Modelled from the spec: the entry of the debounced commit buffer that
  \<open>useDebouncedCallback\<close> of the package use-debounce returns (the package is not among
  the sources). Section 4.2: the buffer "accepts a content-patch; starts or resets a
  delay timer (fixed delay, e.g. 500ms) on every call". \<open>callback\<close> is the one entry
  the source calls, as \<open>onNoteChange.callback(data)\<close>, at lines 171 and 222: it keeps
  \<open>data\<close> in place of what was kept and arms the timer for 500 ms from now. The spec
  is silent on what the call returns; as the package has it, that is the value the
  last invocation of the debounced function returned, here its promise as it settled,
  and \<open>undefined\<close> (\<open>None\<close>) before the first invocation.
\<close>

definition callback :: "NoteModel \<Rightarrow> session \<Rightarrow> (exn + unit) option \<times> session" where
  "callback d s = (result s, s\<lparr>timer := Some (clock s + wait, d)\<rparr>)"

text \<open>
  Modelled from the spec: the timer of the debounced commit buffer. Section 4.2: "when
  the timer elapses, exactly one commit executes with the latest patch at elapse time".
  \<open>advance\<close> lets \<open>d\<close> milliseconds pass: a timer that falls due in them is cleared
  and the function is invoked once on the kept arguments; what it returns is kept as
  \<open>result\<close>.
\<close>

definition advance :: "env \<Rightarrow> nat \<Rightarrow> session \<Rightarrow> session" where
  "advance e d s =
     (case timer s of
        None \<Rightarrow> s\<lparr>clock := clock s + d\<rparr>
      | Some (due, a) \<Rightarrow>
          if due \<le> clock s + d then
            (case commit e a (s\<lparr>timer := None\<rparr>) of
               (r, s') \<Rightarrow> s'\<lparr>result := Some r, clock := clock s + d\<rparr>)
          else s\<lparr>clock := clock s + d\<rparr>)"

text \<open>A run of calls to the buffer: before each call, the given time passes.\<close>

fun calls_after :: "env \<Rightarrow> (nat \<times> NoteModel) list \<Rightarrow> session \<Rightarrow> session" where
  "calls_after e [] s = s"
| "calls_after e ((d, p) # ps) s = calls_after e ps (snd (callback p (advance e d s)))"

definition burst :: "env \<Rightarrow> NoteModel \<Rightarrow> (nat \<times> NoteModel) list \<Rightarrow> session \<Rightarrow> session" where
  "burst e p0 ps s = calls_after e ps (snd (callback p0 s))"

text \<open>The one call of the persistence client a commit of \<open>d\<close> makes from session \<open>s\<close>.\<close>

definition routed :: "env \<Rightarrow> session \<Rightarrow> NoteModel \<Rightarrow> api_call" where
  "routed e s d =
     (if has (query (router s)) ''new''
      then CreateNote (spread (noteOf s) (d\<lparr>pid := Value (pidOrRoot e (router s))\<rparr>))
      else UpdateNote d)"

text \<open>
  The same function in the two parts its first \<open>await\<close> separates. \<open>dispatch\<close> is the
  part that runs when the function is called: lines 58 to 62, or 58 and 69, up to the
  call of the persistence client; the commit is then in flight (\<open>pending\<close>), with the
  argument of that call. \<open>settle\<close> is the part that runs once the promise of the
  persistence client has settled: lines 62 to 67, reading \<open>router.asPath\<close> as it is
  then. Other events, a further \<open>dispatch\<close> among them, can come between the two.
\<close>

datatype pending = Creating NoteModel | Updating NoteModel

definition dispatch :: "env \<Rightarrow> NoteModel \<Rightarrow> session \<Rightarrow> pending \<times> session" where
  "dispatch e d s =
     (if has (query (router s)) ''new'' then
        (let d' = d\<lparr>pid := Value (pidOrRoot e (router s))\<rparr>;
             arg = spread (noteOf s) d'
         in (Creating arg, s\<lparr>calls := calls s @ [CreateNote arg]\<rparr>))
      else (Updating d, s\<lparr>calls := calls s @ [UpdateNote d]\<rparr>))"

definition settle :: "env \<Rightarrow> pending \<Rightarrow> session \<Rightarrow> (exn + unit) \<times> session" where
  "settle e p s =
     (case p of
        Creating arg \<Rightarrow>
          (case createNote e arg of
             Inl x \<Rightarrow> (Inl x, s)
           | Inr item \<Rightarrow>
               (if asPath (router s) \<noteq> noteUrl item
                then (case replace e (noteUrl item) True (router s) of
                        (r, rt) \<Rightarrow> (r, s\<lparr>router := rt\<rparr>))
                else (Inr (), s)))
      | Updating d \<Rightarrow>
          (case updateNote e d of
             Inl x \<Rightarrow> (Inl x, s)
           | Inr u \<Rightarrow> (Inr (), s)))"

text \<open>
  Commits that may overlap. The state is the commits in flight, oldest first, and the
  session. \<open>Dispatch d\<close> calls the function on \<open>d\<close>; \<open>Settle k\<close> lets the commit at
  position \<open>k\<close> of those in flight run to its end (and does nothing when there is no
  such commit). \<open>dispatched\<close> lists the patches a run of events dispatches.
\<close>

datatype event = Dispatch NoteModel | Settle nat

fun run :: "env \<Rightarrow> event list \<Rightarrow> pending list \<times> session \<Rightarrow> pending list \<times> session" where
  "run e [] c = c"
| "run e (Dispatch d # es) (ps, s) =
     run e es (ps @ [fst (dispatch e d s)], snd (dispatch e d s))"
| "run e (Settle k # es) (ps, s) =
     (if k < length ps
      then run e es (take k ps @ drop (Suc k) ps, snd (settle e (ps ! k) s))
      else run e es (ps, s))"

fun dispatched :: "event list \<Rightarrow> NoteModel list" where
  "dispatched [] = []"
| "dispatched (Dispatch d # es) = d # dispatched es"
| "dispatched (Settle k # es) = dispatched es"

section \<open>The callbacks of the session controller\<close>

text \<open>The patch \<open>{ content: c }\<close>.\<close>

definition contentPatch :: "string \<Rightarrow> NoteModel" where
  "contentPatch c = \<lparr>nid = Missing, pid = Missing, title = Missing, content = Value c\<rparr>"

text \<open>
  \<open>onEditorChange\<close> (lines 164 to 183); \<open>v\<close> is what the thunk \<open>value()\<close> gives. In
  edit mode the patch goes to \<open>onNoteChange.callback\<close> and \<open>.catch\<close> is called on
  what that returns: on \<open>undefined\<close> this is a TypeError, caught by the enclosing
  \<open>try\<close> (toast of line 179); on a rejected promise the handler of line 172 runs
  (toast of line 174).
\<close>

definition onEditorChange :: "string \<Rightarrow> session \<Rightarrow> session" where
  "onEditorChange v s =
     (if isEditing s then
        (case callback (contentPatch v) s of
           (None, s') \<Rightarrow> s'\<lparr>toasts := toasts s' @ [(ChangeFailed, error)]\<rparr>
         | (Some (Inl x), s') \<Rightarrow> s'\<lparr>toasts := toasts s' @ [(SaveFailedRetry, error)]\<rparr>
         | (Some (Inr u), s') \<Rightarrow> s')
      else s)"

text \<open>
  \<open>saveNote\<close> (lines 218 to 232): with a non-empty \<open>currentContent\<close> it awaits what
  \<open>onNoteChange.callback\<close> returns. Awaiting \<open>undefined\<close> or a fulfilled promise goes
  on to lines 223 and 224; a rejected promise goes to the \<open>catch\<close> of line 225.
\<close>

definition saveNote :: "session \<Rightarrow> session" where
  "saveNote s =
     (if currentContent s \<noteq> [] then
        (case callback (contentPatch (currentContent s)) s of
           (Some (Inl x), s') \<Rightarrow> s'\<lparr>toasts := toasts s' @ [(SaveFailedRetry, error)]\<rparr>
         | (r, s') \<Rightarrow> s'\<lparr>toasts := toasts s' @ [(NoteSaved, success)], isEditing := False\<rparr>)
      else s)"

definition toggleEditMode :: "session \<Rightarrow> session" where
  "toggleEditMode s = s\<lparr>isEditing := \<not> isEditing s\<rparr>"

text \<open>\<open>note?.content\<close> and \<open>note?.id\<close>: \<open>undefined\<close> without a note.\<close>

definition noteContent :: "session \<Rightarrow> string option" where
  "noteContent s = (case noteOf s of None \<Rightarrow> None | Some n \<Rightarrow> valueOf (content n))"

definition noteId :: "session \<Rightarrow> string option" where
  "noteId s = (case noteOf s of None \<Rightarrow> None | Some n \<Rightarrow> valueOf (nid n))"

text \<open>
  \<open>handleBeforeUnload\<close> (lines 204 to 210): it returns the confirmation text, and
  sets it as the event's \<open>returnValue\<close>, or returns nothing. The text is the constant
  of line 206 ("you have unsaved changes, leave anyway?"), here \<open>UnsavedChanges\<close>.
\<close>

datatype prompt = UnsavedChanges

definition handleBeforeUnload :: "session \<Rightarrow> prompt option" where
  "handleBeforeUnload s =
     (if isEditing s \<and> Some (currentContent s) \<noteq> noteContent s
      then Some UnsavedChanges else None)"

text \<open>
  \<open>onCreateLink\<close> (lines 75 to 86): the promise rejects with what
  \<open>createNoteWithTitle\<close> rejected with, or with \<open>Error('todo')\<close> when there is no result.
\<close>

definition onCreateLink :: "env \<Rightarrow> string \<Rightarrow> exn + string" where
  "onCreateLink e t =
     (case createNoteWithTitle e t of
        Inl x \<Rightarrow> Inl x
      | Inr None \<Rightarrow> Inl (Error ''todo'')
      | Inr (Some r) \<Rightarrow> Inr (noteUrl (Some r)))"

text \<open>\<open>editorEl.current?.props.readOnly\<close> and \<open>editorEl.current?.view\<close>.\<close>

definition isReadOnly :: "session \<Rightarrow> bool" where
  "isReadOnly s = (case editorEl s of None \<Rightarrow> False | Some ed \<Rightarrow> readOnly ed)"

definition currentView :: "session \<Rightarrow> nat option" where
  "currentView s = (case editorEl s of None \<Rightarrow> None | Some ed \<Rightarrow> Some (view ed))"

text \<open>
  \<open>onHoverLink\<close> (lines 122 to 147) on the element under the pointer. It always
  returns \<open>true\<close>. An empty \<open>href\<close> is falsy, like a missing one. \<open>href.slice(1)\<close> is
  \<open>drop 1\<close>.
\<close>

definition onHoverLink :: "env \<Rightarrow> element \<Rightarrow> session \<Rightarrow> bool \<times> session" where
  "onHoverLink e link s =
     (if \<not> isBrowser s then (True, s)
      else if isReadOnly s then (True, s)
      else if ''bookmark'' \<in> set (classList link) then (True, s)
      else (case href link of
              None \<Rightarrow> (True, s\<lparr>preview := setData None (preview s)\<rparr>)
            | Some h \<Rightarrow>
                if h = [] then (True, s\<lparr>preview := setData None (preview s)\<rparr>)
                else if isNoteLink e h then
                  (True, s\<lparr>preview :=
                     setAnchor link (setData (Some (drop 1 h)) (close (preview s)))\<rparr>)
                else
                  (True, s\<lparr>linkToolbar :=
                     setAnchor link (setData (h, currentView s) (linkToolbar s))\<rparr>)))"

text \<open>
  \<open>getBackLinks\<close> (lines 151 to 162). \<open>cache\<close> is the snapshots of \<open>noteCache\<close> in the
  order \<open>iterate\<close> visits them; \<open>scan\<close> is that iteration with the visitor of lines
  157 to 159, which pushes onto \<open>linkNotes\<close>. Without a note id the function returns
  the empty \<open>linkNotes\<close>; otherwise it returns nothing and leaves the result in
  \<open>backlinks\<close>.
\<close>

definition linksTo :: "string \<Rightarrow> NoteCacheItem \<Rightarrow> bool" where
  "linksTo i v = (case linkIds v of None \<Rightarrow> False | Some ls \<Rightarrow> i \<in> set ls)"

fun scan :: "string \<Rightarrow> NoteCacheItem list \<Rightarrow> NoteCacheItem list \<Rightarrow> NoteCacheItem list" where
  "scan i [] linkNotes = linkNotes"
| "scan i (v # vs) linkNotes = scan i vs (if linksTo i v then linkNotes @ [v] else linkNotes)"

definition getBackLinks ::
  "NoteCacheItem list \<Rightarrow> session \<Rightarrow> NoteCacheItem list option \<times> session" where
  "getBackLinks cache s =
     (case noteId s of
        None \<Rightarrow> (Some [], s)
      | Some i \<Rightarrow>
          if i = [] then (Some [], s)
          else (None, s\<lparr>backlinks := Some (scan i cache [])\<rparr>))"

section \<open>The global error handlers (components/route-error-handler.tsx)\<close>

text \<open>
  A console call: \<open>console.log\<close> of a fixed text, \<open>console.warn\<close> and \<open>console.error\<close>
  with the message they are given.
\<close>

datatype console_call = ConsoleLog | ConsoleWarn string | ConsoleError string






section \<open>Example collaborators and sessions\<close>

definition env0 :: env where
  "env0 = \<lparr>createNote = (\<lambda>n. Inr (Some (n\<lparr>nid := Value ''n7''\<rparr>))),
           updateNote = (\<lambda>n. Inr ()),
           createNoteWithTitle = (\<lambda>t. if t = [] then Inr None
              else Inr (Some \<lparr>nid = Value ''n9'', pid = Missing, title = Value t,
                              content = Missing\<rparr>)),
           isNoteLink = (\<lambda>h. take 1 h = ''/'' \<and> CHR ''/'' \<notin> set (drop 1 h) \<and> 1 < length h),
           ROOT_ID = ''root'',
           parseQuery = (\<lambda>u. [(''id'', drop 1 u)]),
           replaceRejects = (\<lambda>u. None)\<rparr>"

text \<open>A persistence client whose \<open>updateNote\<close> rejects.\<close>

definition env_offline :: env where
  "env_offline = env0\<lparr>updateNote := (\<lambda>n. Inl (Error ''offline''))\<rparr>"

definition idle :: "'d portal" where
  "idle = \<lparr>anchor = None, data = None\<rparr>"

text \<open>A persisted note open in edit mode, nothing pending.\<close>

definition session0 :: session where
  "session0 = \<lparr>isEditing = True, currentContent = ''draft'',
     noteOf = Some \<lparr>nid = Value ''n1'', pid = Value ''root'', title = Value ''T'',
                    content = Value ''old''\<rparr>,
     router = \<lparr>query = [(''id'', ''n1'')], asPath = ''/n1'', replaced = []\<rparr>,
     clock = 0, timer = None, result = None, calls = [], toasts = [],
     isBrowser = True, editorEl = Some \<lparr>readOnly = False, view = 0\<rparr>,
     preview = idle, linkToolbar = idle, backlinks = None\<rparr>"

text \<open>The same session 100 ms after an edit that is still waiting in the buffer.\<close>

definition session1 :: session where
  "session1 = session0\<lparr>clock := 100, timer := Some (500, contentPatch ''typed'')\<rparr>"

text \<open>A session opened at \<open>/new?new&pid=p3\<close>: no note yet.\<close>

definition session_new :: session where
  "session_new = session0\<lparr>noteOf := None,
     router := \<lparr>query = [(''new'', []), (''pid'', ''p3'')], asPath = ''/new?new&pid=p3'',
                 replaced = []\<rparr>\<rparr>"

text \<open>The same with a bound note, whose \<open>pid\<close> and \<open>content\<close> a patch will override.\<close>

definition session_draft :: session where
  "session_draft = session_new\<lparr>noteOf :=
     Some \<lparr>nid = Value ''n0'', pid = Value ''root'', title = Value ''T'',
           content = Value ''old''\<rparr>\<rparr>"

definition link_a :: element where
  "link_a = \<lparr>node = 1, href = Some ''/abc123'', classList = []\<rparr>"

definition link_b :: element where
  "link_b = \<lparr>node = 2, href = Some ''https://example.com'', classList = []\<rparr>"

definition item_of :: "string \<Rightarrow> string list option \<Rightarrow> NoteCacheItem" where
  "item_of i ls = \<lparr>nid = Value i, pid = Missing, title = Missing, content = Missing,
                   rawContent = None, linkIds = ls\<rparr>"

section \<open>The debounced buffer: one commit per window, the last patch wins\<close>

lemma commit_calls: "calls (snd (commit e d s)) = calls s @ [routed e s d]"
  by (simp add: commit_def routed_def Let_def split: sum.splits prod.splits)

lemma commit_timer: "timer (snd (commit e d s)) = timer s"
  by (simp add: commit_def Let_def split: sum.splits prod.splits)

lemma advance_early:
  "timer s = Some (due, a) \<Longrightarrow> clock s + d < due \<Longrightarrow> advance e d s = s\<lparr>clock := clock s + d\<rparr>"
  by (simp add: advance_def)

lemma advance_due:
  "timer s = Some (due, a) \<Longrightarrow> due \<le> clock s + d \<Longrightarrow>
   advance e d s = (case commit e a (s\<lparr>timer := None\<rparr>) of
               (r, s') \<Rightarrow> s'\<lparr>result := Some r, clock := clock s + d\<rparr>)"
  by (simp add: advance_def)

lemma advance_idle: "timer s = None \<Longrightarrow> advance e d s = s\<lparr>clock := clock s + d\<rparr>"
  by (simp add: advance_def)

text \<open>While every call comes less than 500 ms after the one before, no timer falls
  due: only the clock and the armed timer change.\<close>

lemma calls_after_window:
  "timer s = Some (clock s + wait, p) \<Longrightarrow> \<forall>(d, q) \<in> set ps. d < wait \<Longrightarrow>
   calls_after e ps s =
     s\<lparr>clock := clock s + sum_list (map fst ps),
       timer := Some (clock s + sum_list (map fst ps) + wait, last (p # map snd ps))\<rparr>"
proof (induction ps arbitrary: s p)
  case Nil
  then show ?case by simp
next
  case (Cons x ps)
  obtain d q where x: "x = (d, q)" by (cases x)
  from Cons.prems x have d: "d < wait" by simp
  let ?s1 = "snd (callback q (advance e d s))"
  have adv: "advance e d s = s\<lparr>clock := clock s + d\<rparr>"
    using Cons.prems(1) d by (simp add: advance_early)
  have s1: "?s1 = s\<lparr>clock := clock s + d, timer := Some (clock s + d + wait, q)\<rparr>"
    by (simp add: adv callback_def)
  have t1: "timer ?s1 = Some (clock ?s1 + wait, q)" by (simp add: s1)
  from Cons.prems have rest: "\<forall>(d, q) \<in> set ps. d < wait" by simp
  have "calls_after e (x # ps) s = calls_after e ps ?s1" by (simp add: x)
  also have "\<dots> = ?s1\<lparr>clock := clock ?s1 + sum_list (map fst ps),
       timer := Some (clock ?s1 + sum_list (map fst ps) + wait, last (q # map snd ps))\<rparr>"
    by (rule Cons.IH [OF t1 rest])
  finally show ?case by (simp add: s1 x add.assoc)
qed

lemma advance_due_calls:
  assumes "timer S = Some (due, l)" and "due \<le> clock S + d"
  shows "calls (advance e d S) = calls S @ [routed e S l]"
    and "timer (advance e d S) = None"
proof -
  have a: "advance e d S = (case commit e l (S\<lparr>timer := None\<rparr>) of
               (r, s') \<Rightarrow> s'\<lparr>result := Some r, clock := clock S + d\<rparr>)"
    by (rule advance_due [OF assms])
  have "calls (advance e d S) = calls (snd (commit e l (S\<lparr>timer := None\<rparr>)))"
    by (simp add: a split: prod.splits)
  also have "\<dots> = calls (S\<lparr>timer := None\<rparr>) @ [routed e (S\<lparr>timer := None\<rparr>) l]"
    by (rule commit_calls)
  also have "\<dots> = calls S @ [routed e S l]"
    by (simp add: routed_def)
  finally show "calls (advance e d S) = calls S @ [routed e S l]" .
  have "timer (advance e d S) = timer (snd (commit e l (S\<lparr>timer := None\<rparr>)))"
    by (simp add: a split: prod.splits)
  then show "timer (advance e d S) = None" by (simp add: commit_timer)
qed

lemma burst_window:
  assumes "\<forall>(d, q) \<in> set ps. d < wait"
  shows "burst e p0 ps s =
     s\<lparr>clock := clock s + sum_list (map fst ps),
       timer := Some (clock s + sum_list (map fst ps) + wait, last (p0 # map snd ps))\<rparr>"
proof -
  let ?s0 = "snd (callback p0 s)"
  have t0: "timer ?s0 = Some (clock ?s0 + wait, p0)" by (simp add: callback_def)
  have "burst e p0 ps s = ?s0\<lparr>clock := clock ?s0 + sum_list (map fst ps),
       timer := Some (clock ?s0 + sum_list (map fst ps) + wait, last (p0 # map snd ps))\<rparr>"
    unfolding burst_def by (rule calls_after_window [OF t0 assms])
  then show ?thesis by (simp add: callback_def del: last.simps)
qed

text \<open>
  Claim C2. A first call \<open>p0\<close> to the debounced buffer and then any finite run \<open>ps\<close> of
  further calls, each less than the 500 ms of \<open>wait\<close> after the call before it, make
  one debounce window. During the window no commit runs (the calls to the persistence
  client are those of before), and the timer stays armed for 500 ms after the last
  call with the patch of the last call. When 500 ms or more have then passed (\<open>d'\<close>),
  exactly one commit has run, on the patch of the last call: the session is the one
  that commit leaves, the persistence client has received the single call that commit
  routes, and no timer is armed, so that no further commit runs however long one
  waits (\<open>d''\<close>). The patches of the earlier calls are never committed.
\<close>

theorem debounce_single_commit:
  assumes "\<forall>(d, q) \<in> set ps. d < wait" and "wait \<le> d'"
  shows "calls (burst e p0 ps s) = calls s
    \<and> timer (burst e p0 ps s) = Some (clock (burst e p0 ps s) + wait, last (p0 # map snd ps))
    \<and> advance e d' (burst e p0 ps s) =
           (case commit e (last (p0 # map snd ps)) ((burst e p0 ps s)\<lparr>timer := None\<rparr>) of
              (r, s') \<Rightarrow> s'\<lparr>result := Some r, clock := clock (burst e p0 ps s) + d'\<rparr>)
    \<and> calls (advance e d' (burst e p0 ps s)) = calls s @ [routed e s (last (p0 # map snd ps))]
    \<and> timer (advance e d' (burst e p0 ps s)) = None
    \<and> calls (advance e d'' (advance e d' (burst e p0 ps s))) = calls (advance e d' (burst e p0 ps s))"
proof -
  define B where "B = burst e p0 ps s"
  define l where "l = last (p0 # map snd ps)"
  have B: "B = s\<lparr>clock := clock s + sum_list (map fst ps),
       timer := Some (clock s + sum_list (map fst ps) + wait, l)\<rparr>"
    unfolding B_def l_def by (rule burst_window [OF assms(1)])
  have c: "calls B = calls s" by (simp add: B)
  have t: "timer B = Some (clock B + wait, l)" by (simp add: B)
  have due: "clock B + wait \<le> clock B + d'" using assms(2) by simp
  have a: "advance e d' B =
           (case commit e l (B\<lparr>timer := None\<rparr>) of
              (r, s') \<Rightarrow> s'\<lparr>result := Some r, clock := clock B + d'\<rparr>)"
    by (rule advance_due [OF t due])
  have r: "routed e B l = routed e s l" by (simp add: routed_def B)
  have c2: "calls (advance e d' B) = calls s @ [routed e s l]"
    using advance_due_calls(1) [OF t due, of e] by (simp only: r c)
  have t2: "timer (advance e d' B) = None"
    by (rule advance_due_calls(2) [OF t due])
  have c3: "calls (advance e d'' (advance e d' B)) = calls (advance e d' B)"
    by (simp add: advance_idle [OF t2])
  show ?thesis unfolding B_def [symmetric] l_def [symmetric]
    by (intro conjI c t a c2 t2 c3)
qed

text \<open>Three calls 100 ms and 499 ms apart on a persisted note, then 500 ms of quiet:
  the only call the persistence client receives is the update with the third patch.\<close>

theorem debounce_single_commit_witness:
  "calls (burst env0 (contentPatch ''a'')
            [(100, contentPatch ''ab''), (499, contentPatch ''abc'')] session0) = []
   \<and> calls (advance env0 500 (burst env0 (contentPatch ''a'')
            [(100, contentPatch ''ab''), (499, contentPatch ''abc'')] session0))
       = [UpdateNote (contentPatch ''abc'')]
   \<and> calls (advance env0 9000 (advance env0 500 (burst env0 (contentPatch ''a'')
            [(100, contentPatch ''ab''), (499, contentPatch ''abc'')] session0)))
       = [UpdateNote (contentPatch ''abc'')]"
proof -
  have h1: "\<forall>(d, q) \<in> set [(100, contentPatch ''ab''), (499, contentPatch ''abc'')]. d < wait"
    by (simp add: wait_def)
  have h2: "wait \<le> 500" by (simp add: wait_def)
  have r: "routed env0 session0 (contentPatch ''abc'') = UpdateNote (contentPatch ''abc'')"
    by (simp add: routed_def has_def session0_def)
  have c: "calls session0 = []" by (simp add: session0_def)
  let ?B = "burst env0 (contentPatch ''a'')
            [(100, contentPatch ''ab''), (499, contentPatch ''abc'')] session0"
  let ?l = "last (contentPatch ''a'' # map snd [(100::nat, contentPatch ''ab''), (499, contentPatch ''abc'')])"
  note T = debounce_single_commit [OF h1 h2, where e = env0 and ?p0.0 = "contentPatch ''a''"
      and s = session0 and d'' = 9000]
  have l: "?l = contentPatch ''abc''" by simp
  from T have c1: "calls ?B = calls session0" by (elim conjE)
  from T have c4: "calls (advance env0 500 ?B) = calls session0 @ [routed env0 session0 ?l]"
    by (elim conjE)
  from T have c6: "calls (advance env0 9000 (advance env0 500 ?B)) = calls (advance env0 500 ?B)"
    by (elim conjE)
  from c1 c4 c6 show ?thesis by (simp only: l r c append_Nil simp_thms)
qed

section \<open>The backlink scan\<close>

lemma scan_filter: "scan i vs linkNotes = linkNotes @ filter (linksTo i) vs"
  by (induction vs arbitrary: linkNotes) simp_all

text \<open>
  Claim C4. With a note id \<open>i\<close> at hand, \<open>getBackLinks\<close> leaves as \<open>backlinks\<close>
  exactly the snapshots of the cache whose \<open>linkIds\<close> hold \<open>i\<close>, in the order the
  cache iterates them, and changes nothing else; there are as many of them as there
  are positions of the cache whose snapshot links to \<open>i\<close> (the K of the N). Without
  a note id (no note, no id, or an empty id) it returns the empty list whatever the
  cache holds, and the session is as before.
\<close>

theorem getBackLinks_scan:
  "(noteId s = Some i \<and> i \<noteq> [] \<longrightarrow>
        snd (getBackLinks cache s) = s\<lparr>backlinks := Some (filter (linksTo i) cache)\<rparr>
      \<and> backlinks (snd (getBackLinks cache s)) = Some (filter (linksTo i) cache)
      \<and> length (filter (linksTo i) cache) = card {k. k < length cache \<and> linksTo i (cache ! k)})
   \<and> (noteId s = None \<or> noteId s = Some [] \<longrightarrow> getBackLinks cache s = (Some [], s))"
  by (simp add: getBackLinks_def scan_filter length_filter_conv_card)

text \<open>A cache of four snapshots, two of which link to the note \<open>n1\<close> of the session;
  and the same cache for a session without a note.\<close>

theorem getBackLinks_scan_witness:
  "backlinks (snd (getBackLinks
       [item_of ''a'' (Some [''n1'']), item_of ''b'' None,
        item_of ''c'' (Some [''x'', ''n1'']), item_of ''d'' (Some [])] session0))
     = Some [item_of ''a'' (Some [''n1'']), item_of ''c'' (Some [''x'', ''n1''])]
   \<and> getBackLinks
       [item_of ''a'' (Some [''n1'']), item_of ''b'' None,
        item_of ''c'' (Some [''x'', ''n1'']), item_of ''d'' (Some [])] session_new
     = (Some [], session_new)"
proof -
  let ?cache = "[item_of ''a'' (Some [''n1'']), item_of ''b'' None,
        item_of ''c'' (Some [''x'', ''n1'']), item_of ''d'' (Some [])]"
  have i0: "noteId session0 = Some ''n1''" by (simp add: noteId_def session0_def)
  have i1: "noteId session_new = None" by (simp add: noteId_def session_new_def)
  have f: "filter (linksTo ''n1'') ?cache
             = [item_of ''a'' (Some [''n1'']), item_of ''c'' (Some [''x'', ''n1''])]"
    by (simp add: linksTo_def item_of_def)
  from getBackLinks_scan [of session0 "''n1''" ?cache] i0
  have a: "backlinks (snd (getBackLinks ?cache session0)) = Some (filter (linksTo ''n1'') ?cache)"
    by simp
  from getBackLinks_scan [of session_new "''n1''" ?cache] i1
  have b: "getBackLinks ?cache session_new = (Some [], session_new)"
    by simp
  from a b show ?thesis by (simp only: f simp_thms)
qed

section \<open>The unsaved-changes guard\<close>

text \<open>
  Claim C7. \<open>handleBeforeUnload\<close> asks for confirmation exactly when the session is in
  edit mode and \<open>currentContent\<close> differs from the content of the bound note (a note
  without content, or no note, differs from every text); when the session is not in
  edit mode, or the content is that of the note, it returns nothing.
\<close>

theorem unsaved_guard:
  "(handleBeforeUnload s = Some UnsavedChanges) =
     (isEditing s \<and> Some (currentContent s) \<noteq> noteContent s)
   \<and> (handleBeforeUnload s = None) =
     (\<not> isEditing s \<or> Some (currentContent s) = noteContent s)"
  by (simp add: handleBeforeUnload_def)

text \<open>The draft of \<open>session0\<close> differs from its note: the guard triggers. With the
  note's content as the draft, or outside edit mode, it does not.\<close>

theorem unsaved_guard_witness:
  "handleBeforeUnload session0 = Some UnsavedChanges
   \<and> handleBeforeUnload (session0\<lparr>currentContent := ''old''\<rparr>) = None
   \<and> handleBeforeUnload (session0\<lparr>isEditing := False\<rparr>) = None"
  using unsaved_guard [of session0]
    unsaved_guard [of "session0\<lparr>currentContent := ''old''\<rparr>"]
    unsaved_guard [of "session0\<lparr>isEditing := False\<rparr>"]
  by (simp add: session0_def noteContent_def)

section \<open>Creating a note for a link\<close>

text \<open>
  Claim C8. When \<open>createNoteWithTitle\<close> resolves to a result, \<open>onCreateLink\<close> resolves
  to the address of that note, a slash and then its id. When it resolves to no result,
  \<open>onCreateLink\<close> rejects with the error thrown at line 80 and gives no address; a
  rejection of \<open>createNoteWithTitle\<close> itself reaches the caller as well.
\<close>

theorem onCreateLink_result:
  "(createNoteWithTitle e t = Inr (Some r) \<and> nid r = Value i \<longrightarrow>
        onCreateLink e t = Inr (CHR ''/'' # i))
   \<and> (createNoteWithTitle e t = Inr None \<longrightarrow> onCreateLink e t = Inl (Error ''todo''))
   \<and> (createNoteWithTitle e t = Inl x \<longrightarrow> onCreateLink e t = Inl x)"
  by (simp add: onCreateLink_def noteUrl_def)

text \<open>The example client creates note \<open>n9\<close> for a title and nothing for the empty
  title.\<close>

theorem onCreateLink_result_witness:
  "onCreateLink env0 ''Ideas'' = Inr ''/n9''
   \<and> onCreateLink env0 [] = Inl (Error ''todo'')"
  using onCreateLink_result [of env0 "''Ideas''"
      "\<lparr>nid = Value ''n9'', pid = Missing, title = Value ''Ideas'', content = Missing\<rparr>" "''n9''"]
    onCreateLink_result [of env0 "[]"]
  by (simp add: env0_def)

section \<open>Editor changes outside edit mode\<close>

text \<open>
  Claim C10. Outside edit mode \<open>onEditorChange\<close> leaves the session as it is: nothing
  is handed to the debounced buffer and no state changes. Whenever it does change the
  session, or the armed timer, the session is in edit mode; and in edit mode the patch
  with the editor's value is handed to the buffer.
\<close>

theorem onEditorChange_inert:
  "(\<not> isEditing s \<longrightarrow> onEditorChange v s = s)
   \<and> (onEditorChange v s \<noteq> s \<longrightarrow> isEditing s)
   \<and> (timer (onEditorChange v s) \<noteq> timer s \<longrightarrow> isEditing s)
   \<and> (isEditing s \<longrightarrow> timer (onEditorChange v s) = Some (clock s + wait, contentPatch v))"
  by (auto simp add: onEditorChange_def callback_def split: option.splits sum.splits)

text \<open>The example session with edit mode off: a change event leaves it untouched.\<close>

theorem onEditorChange_inert_witness:
  "onEditorChange ''typed'' (session0\<lparr>isEditing := False\<rparr>) = session0\<lparr>isEditing := False\<rparr>
   \<and> timer (onEditorChange ''typed'' session0) = Some (500, contentPatch ''typed'')"
  using onEditorChange_inert [of "session0\<lparr>isEditing := False\<rparr>" "''typed''"]
    onEditorChange_inert [of session0 "''typed''"]
  by (simp add: session0_def wait_def)

section \<open>Cancelled routes and the edit-mode flag\<close>




section \<open>Hovering a link\<close>

text \<open>
  Claim C5. \<open>onHoverLink\<close> returns \<open>true\<close> on every event. Outside a browser, with a
  read-only editor, or on an element of class \<open>bookmark\<close>, the session is left as it
  is. Otherwise: on an href that \<open>isNoteLink\<close> accepts, the preview is closed and
  then opened at the hovered element for the note whose id is the href without its
  first character (for an href \<open>/abc123\<close> the id \<open>abc123\<close>), and nothing else
  changes; on any other href, the link toolbar is opened at the hovered element with
  the href as it stands and the editor's view, and nothing else changes; without an
  href (the code takes an empty one for none) the target of the preview is cleared, and
  nothing else changes, the anchor of the preview included.
\<close>

theorem onHoverLink_dispatch:
  "fst (onHoverLink e link s) = True
   \<and> (\<not> isBrowser s \<or> isReadOnly s \<or> ''bookmark'' \<in> set (classList link) \<longrightarrow>
        snd (onHoverLink e link s) = s)
   \<and> (isBrowser s \<and> \<not> isReadOnly s \<and> ''bookmark'' \<notin> set (classList link) \<longrightarrow>
        (href link = Some h \<and> h \<noteq> [] \<and> isNoteLink e h \<longrightarrow>
           snd (onHoverLink e link s)
             = s\<lparr>preview := \<lparr>anchor = Some link, data = Some (Some (drop 1 h))\<rparr>\<rparr>
         \<and> (h = CHR ''/'' # i \<longrightarrow>
              data (preview (snd (onHoverLink e link s))) = Some (Some i)))
      \<and> (href link = Some h \<and> h \<noteq> [] \<and> \<not> isNoteLink e h \<longrightarrow>
           snd (onHoverLink e link s)
             = s\<lparr>linkToolbar := \<lparr>anchor = Some link, data = Some (h, currentView s)\<rparr>\<rparr>)
      \<and> (href link = None \<or> href link = Some [] \<longrightarrow>
           snd (onHoverLink e link s)
             = s\<lparr>preview := (preview s)\<lparr>data := Some None\<rparr>\<rparr>))"
  by (auto simp add: onHoverLink_def close_def setData_def setAnchor_def split: option.splits)

text \<open>
  The examples of the spec: hovering \<open>/abc123\<close> opens the preview of note \<open>abc123\<close>
  at the link; hovering \<open>https://example.com\<close> opens the toolbar with that href;
  hovering an element without href clears the target of a preview that was open.
\<close>

theorem onHoverLink_dispatch_witness:
  "snd (onHoverLink env0 link_a session0)
     = session0\<lparr>preview := \<lparr>anchor = Some link_a, data = Some (Some ''abc123'')\<rparr>\<rparr>
   \<and> snd (onHoverLink env0 link_b session0)
     = session0\<lparr>linkToolbar := \<lparr>anchor = Some link_b, data = Some (''https://example.com'', Some 0)\<rparr>\<rparr>
   \<and> snd (onHoverLink env0 \<lparr>node = 3, href = None, classList = []\<rparr>
          (session0\<lparr>preview := \<lparr>anchor = Some link_a, data = Some (Some ''abc123'')\<rparr>\<rparr>))
     = session0\<lparr>preview := \<lparr>anchor = Some link_a, data = Some None\<rparr>\<rparr>
   \<and> snd (onHoverLink env0 link_a (session0\<lparr>isBrowser := False\<rparr>)) = session0\<lparr>isBrowser := False\<rparr>"
proof -
  have a: "snd (onHoverLink env0 link_a session0)
     = session0\<lparr>preview := \<lparr>anchor = Some link_a, data = Some (Some ''abc123'')\<rparr>\<rparr>"
    using onHoverLink_dispatch [of env0 link_a session0 "''/abc123''" "''abc123''"]
    by (simp add: env0_def link_a_def session0_def isReadOnly_def)
  have b: "snd (onHoverLink env0 link_b session0)
     = session0\<lparr>linkToolbar := \<lparr>anchor = Some link_b, data = Some (''https://example.com'', Some 0)\<rparr>\<rparr>"
    using onHoverLink_dispatch [of env0 link_b session0 "''https://example.com''"]
    by (simp add: env0_def link_b_def session0_def isReadOnly_def currentView_def)
  have c: "snd (onHoverLink env0 \<lparr>node = 3, href = None, classList = []\<rparr>
          (session0\<lparr>preview := \<lparr>anchor = Some link_a, data = Some (Some ''abc123'')\<rparr>\<rparr>))
     = session0\<lparr>preview := \<lparr>anchor = Some link_a, data = Some None\<rparr>\<rparr>"
    using onHoverLink_dispatch [of env0 "\<lparr>node = 3, href = None, classList = []\<rparr>"
      "session0\<lparr>preview := \<lparr>anchor = Some link_a, data = Some (Some ''abc123'')\<rparr>\<rparr>"]
    by (simp add: session0_def isReadOnly_def)
  have d: "snd (onHoverLink env0 link_a (session0\<lparr>isBrowser := False\<rparr>)) = session0\<lparr>isBrowser := False\<rparr>"
    using onHoverLink_dispatch [of env0 link_a "session0\<lparr>isBrowser := False\<rparr>"]
    by (simp add: session0_def)
  from a b c d show ?thesis by (intro conjI)
qed

section \<open>Commit routing: the branch is taken at dispatch\<close>

lemma commit_split: "commit e d s = settle e (fst (dispatch e d s)) (snd (dispatch e d s))"
  by (simp add: commit_def dispatch_def settle_def Let_def split: sum.splits prod.splits)

lemma dispatch_update:
  "\<not> has (query (router s)) ''new'' \<Longrightarrow>
   dispatch e d s = (Updating d, s\<lparr>calls := calls s @ [UpdateNote d]\<rparr>)"
  by (simp add: dispatch_def)

lemma dispatch_create:
  "has (query (router s)) ''new'' \<Longrightarrow>
   dispatch e d s =
     (Creating (spread (noteOf s) (d\<lparr>pid := Value (pidOrRoot e (router s))\<rparr>)),
      s\<lparr>calls := calls s @
         [CreateNote (spread (noteOf s) (d\<lparr>pid := Value (pidOrRoot e (router s))\<rparr>))]\<rparr>)"
  by (simp add: dispatch_def Let_def)

text \<open>What the spread hands to \<open>createNote\<close>, property by property.\<close>

lemma spread_pid: "pid (spread n (d\<lparr>pid := Value x\<rparr>)) = Value x"
  by (simp add: spread_def split: option.splits)

lemma spread_rest:
  "nid (spread n (d\<lparr>pid := Value x\<rparr>))
     = (if nid d = Missing then (case n of None \<Rightarrow> Missing | Some m \<Rightarrow> nid m) else nid d)"
  "title (spread n (d\<lparr>pid := Value x\<rparr>))
     = (if title d = Missing then (case n of None \<Rightarrow> Missing | Some m \<Rightarrow> title m) else title d)"
  "content (spread n (d\<lparr>pid := Value x\<rparr>))
     = (if content d = Missing then (case n of None \<Rightarrow> Missing | Some m \<Rightarrow> content m)
        else content d)"
  by (simp_all add: spread_def split: option.splits property.splits)

lemma settle_update: "snd (settle e (Updating d) s) = s"
  by (simp add: settle_def split: sum.splits)

lemma settle_create:
  assumes "createNote e a = Inr (Some item)" and "nid item = Value i"
  shows "asPath (router s) = CHR ''/'' # i \<Longrightarrow> settle e (Creating a) s = (Inr (), s)"
    and "asPath (router s) \<noteq> CHR ''/'' # i \<Longrightarrow> replaceRejects e (CHR ''/'' # i) = None \<Longrightarrow>
         settle e (Creating a) s =
           (Inr (), s\<lparr>router := \<lparr>query = parseQuery e (CHR ''/'' # i), asPath = CHR ''/'' # i,
                                 replaced = replaced (router s) @ [(CHR ''/'' # i, True)]\<rparr>\<rparr>)"
    and "asPath (router s) \<noteq> CHR ''/'' # i \<Longrightarrow> replaceRejects e (CHR ''/'' # i) = Some x \<Longrightarrow>
         settle e (Creating a) s =
           (Inl x, s\<lparr>router := (router s)\<lparr>replaced := replaced (router s) @ [(CHR ''/'' # i, True)]\<rparr>\<rparr>)"
  using assms by (simp_all add: settle_def noteUrl_def replace_def)

text \<open>
  Once the query carries no \<open>new\<close> and no creation is in flight, whatever is dispatched
  is an update, in whatever order the commits in flight settle: the router stays as it
  is, and the persistence client receives one update per dispatch, in their order.
\<close>

lemma run_updates:
  "\<not> has (query (router s)) ''new'' \<Longrightarrow> \<forall>p \<in> set ps. \<exists>d. p = Updating d \<Longrightarrow>
   calls (snd (run e es (ps, s))) = calls s @ map UpdateNote (dispatched es)
   \<and> router (snd (run e es (ps, s))) = router s"
proof (induction es arbitrary: ps s)
  case Nil
  then show ?case by simp
next
  case (Cons ev es)
  show ?case
  proof (cases ev)
    case (Dispatch d)
    let ?s1 = "s\<lparr>calls := calls s @ [UpdateNote d]\<rparr>"
    have dd: "dispatch e d s = (Updating d, ?s1)" by (rule dispatch_update [OF Cons.prems(1)])
    have n1: "\<not> has (query (router ?s1)) ''new''" using Cons.prems(1) by simp
    have u1: "\<forall>p \<in> set (ps @ [Updating d]). \<exists>d'. p = Updating d'" using Cons.prems(2) by auto
    have "run e (ev # es) (ps, s) = run e es (ps @ [Updating d], ?s1)"
      by (simp add: Dispatch dd)
    then show ?thesis using Cons.IH [OF n1 u1] by (simp add: Dispatch)
  next
    case (Settle k)
    show ?thesis
    proof (cases "k < length ps")
      case True
      then have "ps ! k \<in> set ps" by simp
      then obtain d where pk: "ps ! k = Updating d" using Cons.prems(2) by blast
      have st: "snd (settle e (ps ! k) s) = s"
        by (simp add: pk settle_update)
      have u1: "\<forall>p \<in> set (take k ps @ drop (Suc k) ps). \<exists>d'. p = Updating d'"
        using Cons.prems(2) by (auto dest: in_set_takeD in_set_dropD)
      have "run e (ev # es) (ps, s) = run e es (take k ps @ drop (Suc k) ps, s)"
        using True by (simp add: Settle st)
      then show ?thesis using Cons.IH [OF Cons.prems(1) u1] by (simp add: Settle)
    next
      case False
      then have "run e (ev # es) (ps, s) = run e es (ps, s)" by (simp add: Settle)
      then show ?thesis using Cons.IH [OF Cons.prems] by (simp add: Settle)
    qed
  qed
qed

text \<open>
  Claim C3, as the code has it. The branch is taken when the commit is dispatched, from
  the query of the router as it is then.

  With the \<open>new\<close> intent in the query, the commit calls \<open>createNote\<close> and nothing else,
  and is then in flight. The argument of the call has as its \<open>pid\<close> the \<open>pid\<close> of the
  query, or \<open>ROOT_ID\<close> when the query has none (or an empty one); each other property
  is the patch's where the patch has the key (also with the value \<open>undefined\<close>), and the
  bound note's where it has not. When the creation has resolved to a note with id
  \<open>i\<close>: where the location is already the address of the note, a slash and then \<open>i\<close>,
  the commit resolves and nothing changes; otherwise \<open>router.replace\<close> is called once
  on that address, shallowly, and the commit resolves with the location at that address
  when the replacement resolves, and rejects with the location as before when the
  replacement rejects.

  Without the \<open>new\<close> intent the commit calls \<open>updateNote\<close> on the patch and nothing
  else, and leaves the router alone when it settles.

  The commit the debounced buffer runs is these two parts one after the other. When
  such a commit has created the note and replaced the location, and the query of the
  note's address carries no \<open>new\<close>, the commits dispatched from then on, by whatever
  events \<open>es\<close> they are dispatched and settle and whatever the persistence client \<open>e'\<close>
  answers, are updates: the client has received the one creation and then one update
  per dispatch.
\<close>

theorem commit_routing:
  "(has (query (router s)) ''new'' \<longrightarrow>
        dispatch e d s =
          (Creating (spread (noteOf s) (d\<lparr>pid := Value (pidOrRoot e (router s))\<rparr>)),
           s\<lparr>calls := calls s @
              [CreateNote (spread (noteOf s) (d\<lparr>pid := Value (pidOrRoot e (router s))\<rparr>))]\<rparr>)
      \<and> pid (spread (noteOf s) (d\<lparr>pid := Value (pidOrRoot e (router s))\<rparr>))
          = Value (pidOrRoot e (router s))
      \<and> nid (spread (noteOf s) (d\<lparr>pid := Value (pidOrRoot e (router s))\<rparr>))
          = (if nid d = Missing then (case noteOf s of None \<Rightarrow> Missing | Some m \<Rightarrow> nid m)
             else nid d)
      \<and> title (spread (noteOf s) (d\<lparr>pid := Value (pidOrRoot e (router s))\<rparr>))
          = (if title d = Missing then (case noteOf s of None \<Rightarrow> Missing | Some m \<Rightarrow> title m)
             else title d)
      \<and> content (spread (noteOf s) (d\<lparr>pid := Value (pidOrRoot e (router s))\<rparr>))
          = (if content d = Missing
             then (case noteOf s of None \<Rightarrow> Missing | Some m \<Rightarrow> content m)
             else content d))
   \<and> (map_of (query (router s)) ''pid'' = Some p \<and> p \<noteq> [] \<longrightarrow> pidOrRoot e (router s) = p)
   \<and> (map_of (query (router s)) ''pid'' = None \<or> map_of (query (router s)) ''pid'' = Some []
        \<longrightarrow> pidOrRoot e (router s) = ROOT_ID e)
   \<and> (createNote e a = Inr (Some item) \<and> nid item = Value i \<longrightarrow>
        (asPath (router s) = CHR ''/'' # i \<longrightarrow> settle e (Creating a) s = (Inr (), s))
      \<and> (asPath (router s) \<noteq> CHR ''/'' # i \<and> replaceRejects e (CHR ''/'' # i) = None \<longrightarrow>
           settle e (Creating a) s =
             (Inr (), s\<lparr>router := \<lparr>query = parseQuery e (CHR ''/'' # i), asPath = CHR ''/'' # i,
                                   replaced = replaced (router s) @ [(CHR ''/'' # i, True)]\<rparr>\<rparr>))
      \<and> (asPath (router s) \<noteq> CHR ''/'' # i \<and> replaceRejects e (CHR ''/'' # i) = Some x \<longrightarrow>
           settle e (Creating a) s =
             (Inl x, s\<lparr>router := (router s)\<lparr>replaced :=
                                     replaced (router s) @ [(CHR ''/'' # i, True)]\<rparr>\<rparr>)))
   \<and> (\<not> has (query (router s)) ''new'' \<longrightarrow>
        dispatch e d s = (Updating d, s\<lparr>calls := calls s @ [UpdateNote d]\<rparr>))
   \<and> snd (settle e (Updating d) s) = s
   \<and> commit e d s = settle e (fst (dispatch e d s)) (snd (dispatch e d s))
   \<and> (has (query (router s)) ''new''
      \<and> createNote e (spread (noteOf s) (d\<lparr>pid := Value (pidOrRoot e (router s))\<rparr>))
          = Inr (Some item)
      \<and> nid item = Value i
      \<and> asPath (router s) \<noteq> CHR ''/'' # i
      \<and> replaceRejects e (CHR ''/'' # i) = None
      \<and> \<not> has (parseQuery e (CHR ''/'' # i)) ''new'' \<longrightarrow>
        calls (snd (run e' es ([], snd (commit e d s))))
          = calls s @ CreateNote (spread (noteOf s) (d\<lparr>pid := Value (pidOrRoot e (router s))\<rparr>))
              # map UpdateNote (dispatched es))"
proof -
  let ?arg = "spread (noteOf s) (d\<lparr>pid := Value (pidOrRoot e (router s))\<rparr>)"
  let ?url = "CHR ''/'' # i"
  have p1: "has (query (router s)) ''new'' \<longrightarrow>
        dispatch e d s = (Creating ?arg, s\<lparr>calls := calls s @ [CreateNote ?arg]\<rparr>)
      \<and> pid ?arg = Value (pidOrRoot e (router s))
      \<and> nid ?arg = (if nid d = Missing then (case noteOf s of None \<Rightarrow> Missing | Some m \<Rightarrow> nid m)
             else nid d)
      \<and> title ?arg = (if title d = Missing then (case noteOf s of None \<Rightarrow> Missing | Some m \<Rightarrow> title m)
             else title d)
      \<and> content ?arg = (if content d = Missing
             then (case noteOf s of None \<Rightarrow> Missing | Some m \<Rightarrow> content m)
             else content d)"
  proof (intro impI conjI)
    assume n: "has (query (router s)) ''new''"
    show "dispatch e d s = (Creating ?arg, s\<lparr>calls := calls s @ [CreateNote ?arg]\<rparr>)"
      by (rule dispatch_create [OF n])
  qed (rule spread_pid spread_rest)+
  have p2: "map_of (query (router s)) ''pid'' = Some p \<and> p \<noteq> [] \<longrightarrow> pidOrRoot e (router s) = p"
    by (simp add: pidOrRoot_def)
  have p3: "map_of (query (router s)) ''pid'' = None \<or> map_of (query (router s)) ''pid'' = Some []
        \<longrightarrow> pidOrRoot e (router s) = ROOT_ID e"
    by (auto simp add: pidOrRoot_def)
  have p4: "createNote e a = Inr (Some item) \<and> nid item = Value i \<longrightarrow>
        (asPath (router s) = ?url \<longrightarrow> settle e (Creating a) s = (Inr (), s))
      \<and> (asPath (router s) \<noteq> ?url \<and> replaceRejects e ?url = None \<longrightarrow>
           settle e (Creating a) s =
             (Inr (), s\<lparr>router := \<lparr>query = parseQuery e ?url, asPath = ?url,
                                   replaced = replaced (router s) @ [(?url, True)]\<rparr>\<rparr>))
      \<and> (asPath (router s) \<noteq> ?url \<and> replaceRejects e ?url = Some x \<longrightarrow>
           settle e (Creating a) s =
             (Inl x, s\<lparr>router := (router s)\<lparr>replaced := replaced (router s) @ [(?url, True)]\<rparr>\<rparr>))"
  proof (intro impI, elim conjE)
    assume h: "createNote e a = Inr (Some item)" "nid item = Value i"
    note r = settle_create [OF h]
    show "(asPath (router s) = ?url \<longrightarrow> settle e (Creating a) s = (Inr (), s))
      \<and> (asPath (router s) \<noteq> ?url \<and> replaceRejects e ?url = None \<longrightarrow>
           settle e (Creating a) s =
             (Inr (), s\<lparr>router := \<lparr>query = parseQuery e ?url, asPath = ?url,
                                   replaced = replaced (router s) @ [(?url, True)]\<rparr>\<rparr>))
      \<and> (asPath (router s) \<noteq> ?url \<and> replaceRejects e ?url = Some x \<longrightarrow>
           settle e (Creating a) s =
             (Inl x, s\<lparr>router := (router s)\<lparr>replaced := replaced (router s) @ [(?url, True)]\<rparr>\<rparr>))"
      using r by blast
  qed
  have p5: "\<not> has (query (router s)) ''new'' \<longrightarrow>
        dispatch e d s = (Updating d, s\<lparr>calls := calls s @ [UpdateNote d]\<rparr>)"
    by (simp add: dispatch_update)
  have p6: "snd (settle e (Updating d) s) = s"
    by (rule settle_update)
  have p7: "commit e d s = settle e (fst (dispatch e d s)) (snd (dispatch e d s))"
    by (rule commit_split)
  have p8: "has (query (router s)) ''new'' \<and> createNote e ?arg = Inr (Some item)
      \<and> nid item = Value i \<and> asPath (router s) \<noteq> ?url
      \<and> replaceRejects e ?url = None
      \<and> \<not> has (parseQuery e ?url) ''new'' \<longrightarrow>
        calls (snd (run e' es ([], snd (commit e d s))))
          = calls s @ CreateNote ?arg # map UpdateNote (dispatched es)"
  proof (intro impI, elim conjE)
    assume n: "has (query (router s)) ''new''"
      and h: "createNote e ?arg = Inr (Some item)" "nid item = Value i"
      and a: "asPath (router s) \<noteq> ?url" and rr: "replaceRejects e ?url = None"
      and q: "\<not> has (parseQuery e ?url) ''new''"
    let ?s1 = "s\<lparr>calls := calls s @ [CreateNote ?arg]\<rparr>"
    let ?s2 = "?s1\<lparr>router := \<lparr>query = parseQuery e ?url, asPath = ?url,
                                   replaced = replaced (router ?s1) @ [(?url, True)]\<rparr>\<rparr>"
    have a1: "asPath (router ?s1) \<noteq> ?url" using a by simp
    have "commit e d s = settle e (Creating ?arg) ?s1"
      by (simp add: commit_split dispatch_create [OF n])
    also have "\<dots> = (Inr (), ?s2)"
      by (rule settle_create(2) [OF h a1 rr])
    finally have c: "snd (commit e d s) = ?s2" by simp
    have n2: "\<not> has (query (router ?s2)) ''new''" using q by simp
    have e0: "\<forall>p \<in> set ([] :: pending list). \<exists>d. p = Updating d" by simp
    have "calls (snd (run e' es ([], ?s2))) = calls ?s2 @ map UpdateNote (dispatched es)"
      using run_updates [OF n2 e0, of e' es] by (rule conjunct1)
    then show "calls (snd (run e' es ([], snd (commit e d s))))
          = calls s @ CreateNote ?arg # map UpdateNote (dispatched es)"
      by (simp add: c)
  qed
  from p1 p2 p3 p4 p5 p6 p7 p8 show ?thesis by (intro conjI)
qed


text \<open>
  A session opened with \<open>?new&pid=p3\<close> on a bound note: the creation carries the
  patch's content, also when that is \<open>undefined\<close>, the \<open>pid\<close> of the query (the root
  when the query has none) and the note's other properties; it moves the location to
  \<open>/n7\<close>, shallowly. Two commits dispatched after it, the second settling first, are
  updates. On a persisted note the commit is an update.
\<close>

theorem commit_routing_witness:
  "fst (dispatch env0 (contentPatch ''a'') session_draft)
     = Creating \<lparr>nid = Value ''n0'', pid = Value ''p3'', title = Value ''T'', content = Value ''a''\<rparr>
   \<and> fst (dispatch env0 \<lparr>nid = Missing, pid = Missing, title = Missing, content = Undefined\<rparr>
          session_draft)
     = Creating \<lparr>nid = Value ''n0'', pid = Value ''p3'', title = Value ''T'', content = Undefined\<rparr>
   \<and> fst (dispatch env0 (contentPatch ''a'')
          (session_draft\<lparr>router := \<lparr>query = [(''new'', [])], asPath = ''/new?new'', replaced = []\<rparr>\<rparr>))
     = Creating \<lparr>nid = Value ''n0'', pid = Value ''root'', title = Value ''T'', content = Value ''a''\<rparr>
   \<and> router (snd (commit env0 (contentPatch ''a'') session_draft))
     = \<lparr>query = [(''id'', ''n7'')], asPath = ''/n7'', replaced = [(''/n7'', True)]\<rparr>
   \<and> calls (snd (run env0
          [Dispatch (contentPatch ''ab''), Dispatch (contentPatch ''abc''), Settle 1, Settle 0]
          ([], snd (commit env0 (contentPatch ''a'') session_draft))))
     = [CreateNote \<lparr>nid = Value ''n0'', pid = Value ''p3'', title = Value ''T'', content = Value ''a''\<rparr>,
        UpdateNote (contentPatch ''ab''), UpdateNote (contentPatch ''abc'')]
   \<and> fst (dispatch env0 (contentPatch ''a'') session0) = Updating (contentPatch ''a'')"
proof -
  let ?arg = "\<lparr>nid = Value ''n0'', pid = Value ''p3'', title = Value ''T'', content = Value ''a''\<rparr>"
  let ?item = "\<lparr>nid = Value ''n7'', pid = Value ''p3'', title = Value ''T'', content = Value ''a''\<rparr>"
  let ?undef = "\<lparr>nid = Missing, pid = Missing, title = Missing, content = Undefined\<rparr>"
  let ?s1 = "session_draft\<lparr>calls := calls session_draft @ [CreateNote ?arg]\<rparr>"
  let ?s2 = "session_draft\<lparr>router := \<lparr>query = [(''new'', [])], asPath = ''/new?new'', replaced = []\<rparr>\<rparr>"
  let ?es = "[Dispatch (contentPatch ''ab''), Dispatch (contentPatch ''abc''), Settle 1, Settle 0]"
  have n: "has (query (router session_draft)) ''new''"
    by (simp add: has_def session_draft_def session_new_def)
  have n2: "has (query (router ?s2)) ''new''" by (simp add: has_def)
  have n0: "\<not> has (query (router session0)) ''new''" by (simp add: has_def session0_def)
  have pd: "map_of (query (router session_draft)) ''pid'' = Some ''p3'' \<and> ''p3'' \<noteq> []"
    by (simp add: session_draft_def session_new_def)
  have pd2: "map_of (query (router ?s2)) ''pid'' = None \<or> map_of (query (router ?s2)) ''pid'' = Some []"
    by simp
  have nt: "noteOf session_draft
      = Some \<lparr>nid = Value ''n0'', pid = Value ''root'', title = Value ''T'', content = Value ''old''\<rparr>"
    "noteOf ?s2
      = Some \<lparr>nid = Value ''n0'', pid = Value ''root'', title = Value ''T'', content = Value ''old''\<rparr>"
    by (simp_all add: session_draft_def)
  have c0: "calls session_draft = []" "replaced (router session_draft) = []"
    by (simp_all add: session_draft_def session_new_def session0_def)
  have ap: "asPath (router session_draft) \<noteq> ''/n7''" "asPath (router ?s1) \<noteq> ''/n7''"
    by (simp_all add: session_draft_def session_new_def)
  have cr: "createNote env0 ?arg = Inr (Some ?item)" by (simp add: env0_def)
  have ni: "nid ?item = Value ''n7''" by simp
  have rr: "replaceRejects env0 ''/n7'' = None" by (simp add: env0_def)
  have pq: "parseQuery env0 ''/n7'' = [(''id'', ''n7'')]" by (simp add: env0_def)
  have nq: "\<not> has (parseQuery env0 ''/n7'') ''new''" by (simp add: pq has_def)

  note T = commit_routing [where s = session_draft and e = env0 and d = "contentPatch ''a''"
      and p = "''p3''" and i = "''n7''" and e' = env0 and item = ?item and es = ?es]
  have pr: "pidOrRoot env0 (router session_draft) = ''p3''"
    by (rule T [THEN conjunct2, THEN conjunct1, rule_format, OF pd])
  have sp: "spread (noteOf session_draft) ((contentPatch ''a'')\<lparr>pid := Value ''p3''\<rparr>) = ?arg"
    by (simp add: nt spread_def contentPatch_def)
  have ar: "spread (noteOf session_draft)
      ((contentPatch ''a'')\<lparr>pid := Value (pidOrRoot env0 (router session_draft))\<rparr>) = ?arg"
    by (simp only: pr sp)
  have di: "dispatch env0 (contentPatch ''a'') session_draft = (Creating ?arg, ?s1)"
    using T [THEN conjunct1, rule_format, OF n, THEN conjunct1] by (simp only: ar)
  have a: "fst (dispatch env0 (contentPatch ''a'') session_draft) = Creating ?arg"
    by (simp only: di fst_conv)
  have cm: "commit env0 (contentPatch ''a'') session_draft = settle env0 (Creating ?arg) ?s1"
    using T [THEN conjunct2, THEN conjunct2, THEN conjunct2, THEN conjunct2, THEN conjunct2,
        THEN conjunct2, THEN conjunct1]
    by (simp only: di fst_conv snd_conv)

  note T1 = commit_routing [where s = ?s1 and e = env0 and i = "''n7''" and item = ?item
      and a = ?arg]
  have "settle env0 (Creating ?arg) ?s1
      = (Inr (), ?s1\<lparr>router := \<lparr>query = parseQuery env0 ''/n7'', asPath = ''/n7'',
                                  replaced = replaced (router ?s1) @ [(''/n7'', True)]\<rparr>\<rparr>)"
    by (rule T1 [THEN conjunct2, THEN conjunct2, THEN conjunct2, THEN conjunct1, rule_format,
          OF conjI [OF cr ni], THEN conjunct2, THEN conjunct1, rule_format, OF conjI [OF ap(2) rr]])
  then have d: "router (snd (commit env0 (contentPatch ''a'') session_draft))
     = \<lparr>query = [(''id'', ''n7'')], asPath = ''/n7'', replaced = [(''/n7'', True)]\<rparr>"
    by (simp add: cm pq c0)

  have cr': "createNote env0 (spread (noteOf session_draft)
      ((contentPatch ''a'')\<lparr>pid := Value (pidOrRoot env0 (router session_draft))\<rparr>))
        = Inr (Some ?item)"
    by (simp only: ar cr)
  have "calls (snd (run env0 ?es ([], snd (commit env0 (contentPatch ''a'') session_draft))))
     = calls session_draft @ CreateNote (spread (noteOf session_draft)
          ((contentPatch ''a'')\<lparr>pid := Value (pidOrRoot env0 (router session_draft))\<rparr>))
         # map UpdateNote (dispatched ?es)"
    by (rule T [THEN conjunct2, THEN conjunct2, THEN conjunct2, THEN conjunct2, THEN conjunct2,
          THEN conjunct2, THEN conjunct2, rule_format])
       (intro conjI n cr' ni ap(1) rr nq)
  then have e: "calls (snd (run env0 ?es ([], snd (commit env0 (contentPatch ''a'') session_draft))))
     = [CreateNote ?arg, UpdateNote (contentPatch ''ab''), UpdateNote (contentPatch ''abc'')]"
    by (simp add: ar c0)

  note T2 = commit_routing [where s = session_draft and e = env0 and d = ?undef]
  have sp2: "spread (noteOf session_draft) (?undef\<lparr>pid := Value (pidOrRoot env0 (router session_draft))\<rparr>)
      = \<lparr>nid = Value ''n0'', pid = Value ''p3'', title = Value ''T'', content = Undefined\<rparr>"
    by (simp add: pr nt spread_def)
  have b: "fst (dispatch env0 ?undef session_draft)
     = Creating \<lparr>nid = Value ''n0'', pid = Value ''p3'', title = Value ''T'', content = Undefined\<rparr>"
    using T2 [THEN conjunct1, rule_format, OF n, THEN conjunct1] by (simp only: sp2 fst_conv)

  note T3 = commit_routing [where s = ?s2 and e = env0 and d = "contentPatch ''a''"]
  have pr3: "pidOrRoot env0 (router ?s2) = ROOT_ID env0"
    by (rule T3 [THEN conjunct2, THEN conjunct2, THEN conjunct1, rule_format, OF pd2])
  have root: "ROOT_ID env0 = ''root''" by (simp add: env0_def)
  have "spread (noteOf ?s2) ((contentPatch ''a'')\<lparr>pid := Value (pidOrRoot env0 (router ?s2))\<rparr>)
      = spread (noteOf ?s2) ((contentPatch ''a'')\<lparr>pid := Value ''root''\<rparr>)"
    by (simp only: pr3 root)
  also have "\<dots> = \<lparr>nid = Value ''n0'', pid = Value ''root'', title = Value ''T'', content = Value ''a''\<rparr>"
    by (simp add: nt spread_def contentPatch_def)
  finally have sp3: "spread (noteOf ?s2)
        ((contentPatch ''a'')\<lparr>pid := Value (pidOrRoot env0 (router ?s2))\<rparr>)
      = \<lparr>nid = Value ''n0'', pid = Value ''root'', title = Value ''T'', content = Value ''a''\<rparr>" .
  have c: "fst (dispatch env0 (contentPatch ''a'') ?s2)
     = Creating \<lparr>nid = Value ''n0'', pid = Value ''root'', title = Value ''T'', content = Value ''a''\<rparr>"
    using T3 [THEN conjunct1, rule_format, OF n2, THEN conjunct1] by (simp only: sp3 fst_conv)

  note T4 = commit_routing [where s = session0 and e = env0 and d = "contentPatch ''a''"]
  have f: "fst (dispatch env0 (contentPatch ''a'') session0) = Updating (contentPatch ''a'')"
    using T4 [THEN conjunct2, THEN conjunct2, THEN conjunct2, THEN conjunct2, THEN conjunct1,
        rule_format, OF n0]
    by (simp only: fst_conv)
  from a b c d e f show ?thesis by (intro conjI)
qed

text \<open>
  The claim as the spec states it fails on a commit dispatched while the creation is
  in flight: in the session opened with \<open>?new&pid=p3\<close>, a second commit dispatched
  before the first has settled finds \<open>new\<close> in the query, and the persistence client
  receives two creations and no update. It fails, too, where the location is the
  address of the created note already: nothing is replaced, the query keeps its
  \<open>new\<close>, and the commit after the first creates again.
\<close>

theorem commit_routing_counterexample:
  "has (query (router session_new)) ''new''
   \<and> calls (snd (run env0
          [Dispatch (contentPatch ''a''), Dispatch (contentPatch ''ab''), Settle 0, Settle 0]
          ([], session_new)))
     = [CreateNote \<lparr>nid = Missing, pid = Value ''p3'', title = Missing, content = Value ''a''\<rparr>,
        CreateNote \<lparr>nid = Missing, pid = Value ''p3'', title = Missing, content = Value ''ab''\<rparr>]
   \<and> calls (snd (commit env0 (contentPatch ''ab'') (snd (commit env0 (contentPatch ''a'')
          (session_new\<lparr>router := \<lparr>query = [(''new'', [])], asPath = ''/n7'', replaced = []\<rparr>\<rparr>)))))
     = [CreateNote \<lparr>nid = Missing, pid = Value ''root'', title = Missing, content = Value ''a''\<rparr>,
        CreateNote \<lparr>nid = Missing, pid = Value ''root'', title = Missing, content = Value ''ab''\<rparr>]"
  by (simp add: has_def session_new_def session0_def env0_def dispatch_def settle_def commit_def
      spread_def contentPatch_def pidOrRoot_def noteUrl_def replace_def Let_def)

section \<open>Saving by hand\<close>

text \<open>
  \<open>saveNote\<close> hands its patch to the same entry of the debounced buffer as
  \<open>onEditorChange\<close> does. So it never runs a commit itself: with a non-empty draft the
  calls to the persistence client are those of before, the timer is armed for 500 ms
  from now with the draft (in place of whatever was pending), and what is notified
  depends only on how the commit before this one settled. Without a draft nothing
  changes.
\<close>

lemma saveNote_schedules:
  assumes "currentContent s \<noteq> []"
  shows "calls (saveNote s) = calls s"
    and "timer (saveNote s) = Some (clock s + wait, contentPatch (currentContent s))"
    and "clock (saveNote s) = clock s"
    and "router (saveNote s) = router s"
    and "noteOf (saveNote s) = noteOf s"
    and "toasts (saveNote s) = toasts s @
           [case result s of Some (Inl x) \<Rightarrow> (SaveFailedRetry, error) | _ \<Rightarrow> (NoteSaved, success)]"
    and "isEditing (saveNote s) = (case result s of Some (Inl x) \<Rightarrow> isEditing s | _ \<Rightarrow> False)"
  using assms by (simp_all add: saveNote_def callback_def split: option.splits sum.splits)

lemma saveNote_empty: "currentContent s = [] \<Longrightarrow> saveNote s = s"
  by (simp add: saveNote_def)

text \<open>A commit notifies nothing and does not touch the edit mode or the draft,
  however it settles; nor does the passing of time.\<close>

lemma commit_frame:
  "toasts (snd (commit e d s)) = toasts s"
  "isEditing (snd (commit e d s)) = isEditing s"
  "currentContent (snd (commit e d s)) = currentContent s"
  by (simp_all add: commit_def Let_def split: sum.splits prod.splits)

lemma advance_unfold:
  "advance e d s =
     (case timer s of
        None \<Rightarrow> s\<lparr>clock := clock s + d\<rparr>
      | Some (due, a) \<Rightarrow>
          if due \<le> clock s + d then
            (snd (commit e a (s\<lparr>timer := None\<rparr>)))
               \<lparr>result := Some (fst (commit e a (s\<lparr>timer := None\<rparr>))), clock := clock s + d\<rparr>
          else s\<lparr>clock := clock s + d\<rparr>)"
  by (simp add: advance_def split: option.splits prod.splits)

lemma advance_frame:
  "toasts (advance e d s) = toasts s"
  "isEditing (advance e d s) = isEditing s"
  "currentContent (advance e d s) = currentContent s"
  by (simp_all add: advance_unfold commit_frame split: option.splits prod.splits)

lemma commit_update_result:
  "\<not> has (query (router s)) ''new'' \<Longrightarrow>
   fst (commit e d s) = (case updateNote e d of Inl x \<Rightarrow> Inl x | Inr u \<Rightarrow> Inr ())"
  by (simp add: commit_def Let_def split: sum.splits)

lemma advance_due_result:
  assumes "timer S = Some (due, l)" and "due \<le> clock S + d"
  shows "result (advance e d S) = Some (fst (commit e l (S\<lparr>timer := None\<rparr>)))"
  by (simp add: advance_due [OF assms] split: prod.splits)

text \<open>
  Claim C1 at a failing input: the session \<open>session0\<close> (edit mode, draft \<open>draft\<close>,
  nothing pending, no commit yet) with a persistence client whose \<open>updateNote\<close>
  rejects. \<open>saveNote\<close> commits nothing: it arms the timer, notifies success and leaves
  edit mode. The commit runs 500 ms later and is rejected, and no failure is notified:
  the only toast is the one of success, and edit mode stays off.
\<close>

theorem saveNote_reports_before_commit:
  "calls (saveNote session0) = []
   \<and> timer (saveNote session0) = Some (500, contentPatch ''draft'')
   \<and> toasts (saveNote session0) = [(NoteSaved, success)]
   \<and> isEditing (saveNote session0) = False
   \<and> calls (advance env_offline 500 (saveNote session0)) = [UpdateNote (contentPatch ''draft'')]
   \<and> result (advance env_offline 500 (saveNote session0)) = Some (Inl (Error ''offline''))
   \<and> toasts (advance env_offline 500 (saveNote session0)) = [(NoteSaved, success)]
   \<and> isEditing (advance env_offline 500 (saveNote session0)) = False"
proof -
  have cc: "currentContent session0 \<noteq> []" "currentContent session0 = ''draft''"
    by (simp_all add: session0_def)
  have s0: "calls session0 = []" "clock session0 = 0" "result session0 = None"
    "toasts session0 = []"
    by (simp_all add: session0_def)
  note S = saveNote_schedules [OF cc(1)]
  have c: "calls (saveNote session0) = []" by (simp add: S s0)
  have t: "timer (saveNote session0) = Some (500, contentPatch ''draft'')"
    by (simp add: S s0 cc(2) wait_def)
  have n: "toasts (saveNote session0) = [(NoteSaved, success)]" by (simp add: S s0)
  have i: "isEditing (saveNote session0) = False" by (simp add: S s0)
  have due: "500 \<le> clock (saveNote session0) + 500" by simp
  have q: "\<not> has (query (router session0)) ''new''" by (simp add: has_def session0_def)
  have "routed env_offline (saveNote session0) (contentPatch ''draft'')
             = routed env_offline session0 (contentPatch ''draft'')"
    by (simp add: routed_def S)
  then have r: "routed env_offline (saveNote session0) (contentPatch ''draft'')
             = UpdateNote (contentPatch ''draft'')"
    using q by (simp add: routed_def)
  have c2: "calls (advance env_offline 500 (saveNote session0)) = [UpdateNote (contentPatch ''draft'')]"
    by (simp add: advance_due_calls(1) [OF t due] r c)
  have f: "fst (commit env_offline (contentPatch ''draft'') ((saveNote session0)\<lparr>timer := None\<rparr>))
             = Inl (Error ''offline'')"
  proof -
    have "\<not> has (query (router ((saveNote session0)\<lparr>timer := None\<rparr>))) ''new''"
      using q by (simp add: S)
    then show ?thesis by (simp add: commit_update_result env_offline_def)
  qed
  have r2: "result (advance env_offline 500 (saveNote session0)) = Some (Inl (Error ''offline''))"
    by (simp add: advance_due_result [OF t due] f)
  have n2: "toasts (advance env_offline 500 (saveNote session0)) = [(NoteSaved, success)]"
    by (simp add: advance_frame n)
  have i2: "isEditing (advance env_offline 500 (saveNote session0)) = False"
    by (simp add: advance_frame i)
  from c t n i c2 r2 n2 i2 show ?thesis by (intro conjI)
qed

text \<open>What does hold after \<open>saveNote\<close>: left alone for 500 ms or more, the buffer runs
  one commit, on the draft, and no timer stays armed.\<close>

lemma saveNote_one_commit:
  assumes "currentContent s \<noteq> []" and "wait \<le> d"
  shows "calls (advance e d (saveNote s)) = calls s @ [routed e s (contentPatch (currentContent s))]"
    and "timer (advance e d (saveNote s)) = None"
proof -
  note S = saveNote_schedules [OF assms(1)]
  have due: "clock s + wait \<le> clock (saveNote s) + d" using assms(2) by (simp add: S)
  have r: "routed e (saveNote s) (contentPatch (currentContent s))
             = routed e s (contentPatch (currentContent s))"
    by (simp add: routed_def S)
  show "calls (advance e d (saveNote s)) = calls s @ [routed e s (contentPatch (currentContent s))]"
    using advance_due_calls(1) [OF S(2) due, of e] by (simp only: r S(1))
  show "timer (advance e d (saveNote s)) = None"
    by (rule advance_due_calls(2) [OF S(2) due])
qed

text \<open>
  Claim C6 at a failing input: \<open>session1\<close>, where an edit made 100 ms ago waits in
  the buffer, due at 500 ms. \<open>saveNote\<close> runs no commit and does not cancel the timer:
  it arms it anew, for 600 ms, with the draft in place of the waiting edit. Nothing is
  committed 499 ms later; the one commit runs once the 500 ms have passed.
\<close>

theorem saveNote_rearms_timer:
  "timer session1 = Some (500, contentPatch ''typed'')
   \<and> calls (saveNote session1) = []
   \<and> timer (saveNote session1) = Some (600, contentPatch ''draft'')
   \<and> calls (advance env0 499 (saveNote session1)) = []
   \<and> timer (advance env0 499 (saveNote session1)) = Some (600, contentPatch ''draft'')
   \<and> calls (advance env0 500 (saveNote session1)) = [UpdateNote (contentPatch ''draft'')]"
proof -
  have cc: "currentContent session1 \<noteq> []" "currentContent session1 = ''draft''"
    by (simp_all add: session1_def session0_def)
  have s1: "calls session1 = []" "clock session1 = 100"
    by (simp_all add: session1_def session0_def)
  note S = saveNote_schedules [OF cc(1)]
  have t0: "timer session1 = Some (500, contentPatch ''typed'')" by (simp add: session1_def)
  have c: "calls (saveNote session1) = []" by (simp add: S s1)
  have t: "timer (saveNote session1) = Some (600, contentPatch ''draft'')"
    by (simp add: S s1 cc(2) wait_def)
  have early: "clock (saveNote session1) + 499 < 600" by (simp add: S s1)
  have due: "600 \<le> clock (saveNote session1) + 500" by (simp add: S s1)
  have a: "advance env0 499 (saveNote session1)
             = (saveNote session1)\<lparr>clock := clock (saveNote session1) + 499\<rparr>"
    by (rule advance_early [OF t early])
  have c1: "calls (advance env0 499 (saveNote session1)) = []" by (simp add: a c)
  have t1: "timer (advance env0 499 (saveNote session1)) = Some (600, contentPatch ''draft'')"
    by (simp add: a t)
  have q: "\<not> has (query (router session1)) ''new''"
    by (simp add: has_def session1_def session0_def)
  have "routed env0 (saveNote session1) (contentPatch ''draft'')
             = routed env0 session1 (contentPatch ''draft'')"
    by (simp add: routed_def S)
  then have r: "routed env0 (saveNote session1) (contentPatch ''draft'')
             = UpdateNote (contentPatch ''draft'')"
    using q by (simp add: routed_def)
  have c2: "calls (advance env0 500 (saveNote session1)) = [UpdateNote (contentPatch ''draft'')]"
    by (simp add: advance_due_calls(1) [OF t due] r c)
  from t0 c t c1 t1 c2 show ?thesis by (intro conjI)
qed

end
